theory Spec2Isabelle
  imports Main
begin

section \<open>Strings as the worker reads them\<close>

text \<open>
  A JavaScript string is a sequence of code units. Every string the worker inspects is a
  URL pathname (ASCII after URL parsing) or a literal of the source, so a string is
  modelled as a HOL \<open>string\<close> and one \<open>char\<close> stands for one code unit.
\<close>

text \<open>A character range \<open>lo-hi\<close> inside a regular-expression class, by code unit.\<close>

definition in_range :: "char \<Rightarrow> char \<Rightarrow> char \<Rightarrow> bool" where
  "in_range lo hi c = ((of_char lo :: nat) \<le> of_char c \<and> (of_char c :: nat) \<le> of_char hi)"

text \<open>The class \<open>[A-Za-z0-9_-]\<close> of \<open>isValidUserId\<close>.\<close>

definition userid_class :: "char \<Rightarrow> bool" where
  "userid_class c =
     (in_range CHR ''A'' CHR ''Z'' c \<or> in_range CHR ''a'' CHR ''z'' c \<or>
      in_range CHR ''0'' CHR ''9'' c \<or> c = CHR ''_'' \<or> c = CHR ''-'')"

text \<open>
  Matching \<open>^[cls]{lo,hi}$\<close> from the start of the input: the input is exhausted and
  no repetition is owed, or one character of the class is consumed and the remaining
  input matches with both bounds lowered. Without the \<open>m\<close> flag \<open>$\<close> is the end of
  the input only.
\<close>

fun match_rep :: "(char \<Rightarrow> bool) \<Rightarrow> nat \<Rightarrow> nat \<Rightarrow> string \<Rightarrow> bool" where
  "match_rep cls lo hi [] = (lo = 0)"
| "match_rep cls lo hi (c # cs) = (0 < hi \<and> cls c \<and> match_rep cls (lo - 1) (hi - 1) cs)"

text \<open>\<open>isValidUserId\<close>: \<open>/^[A-Za-z0-9_-]{10,50}$/.test(userId)\<close>.\<close>

definition isValidUserId :: "string \<Rightarrow> bool" where
  "isValidUserId userId = match_rep userid_class 10 50 userId"

subsection \<open>String operations of the standard library\<close>

text \<open>
  \<open>s.split(sep)\<close> for a one-character separator: the pieces between the separators,
  the empty ones included; the piece under construction is kept reversed in \<open>acc\<close>.
  \<open>"".split("/")\<close> is \<open>[""]\<close>.
\<close>

fun split_acc :: "char \<Rightarrow> string \<Rightarrow> string \<Rightarrow> string list" where
  "split_acc sep acc [] = [rev acc]"
| "split_acc sep acc (c # cs) =
     (if c = sep then rev acc # split_acc sep [] cs else split_acc sep (c # acc) cs)"

definition split :: "string \<Rightarrow> char \<Rightarrow> string list" where
  "split s sep = split_acc sep [] s"

text \<open>\<open>parts.filter(Boolean)\<close> on strings: the empty string is the only falsy one.\<close>

definition filter_Boolean :: "string list \<Rightarrow> string list" where
  "filter_Boolean parts = filter (\<lambda>p. p \<noteq> []) parts"

text \<open>\<open>s.startsWith(t)\<close>, \<open>s.includes(t)\<close> and \<open>s.endsWith(t)\<close>.\<close>

fun startsWith :: "string \<Rightarrow> string \<Rightarrow> bool" where
  "startsWith s [] = True"
| "startsWith [] (t # ts) = False"
| "startsWith (c # cs) (t # ts) = (c = t \<and> startsWith cs ts)"

fun includes_sub :: "string \<Rightarrow> string \<Rightarrow> bool" where
  "includes_sub [] t = (t = [])"
| "includes_sub (c # cs) t = (startsWith (c # cs) t \<or> includes_sub cs t)"

definition endsWith :: "string \<Rightarrow> string \<Rightarrow> bool" where
  "endsWith s t = (length t \<le> length s \<and> drop (length s - length t) s = t)"

text \<open>
  \<open>xs[i]\<close> on an array: \<open>undefined\<close> (here \<open>None\<close>) out of range, never an
  exception.
\<close>

definition at_index :: "'a list \<Rightarrow> nat \<Rightarrow> 'a option" where
  "at_index xs i = (if i < length xs then Some (xs ! i) else None)"

section \<open>Entry router\<close>

text \<open>
  A request, as far as the worker looks at it: the method, the pathname of its URL and
  the rest (headers, body), which the worker never inspects.
\<close>

datatype http_method = GET | POST | OPTIONS | HEAD | OTHER

record 'p request =
  req_method :: http_method
  pathname :: string
  payload :: 'p

text \<open>\<open>extractUserIdFromPath\<close>: \<open>null\<close> is \<open>None\<close>.\<close>

definition extractUserIdFromPath :: "string \<Rightarrow> string option" where
  "extractUserIdFromPath path =
     (let pathParts = filter_Boolean (split path CHR ''/'')
      in if 2 \<le> length pathParts \<and> (pathParts ! 1 = ''sse'' \<or> pathParts ! 1 = ''messages'')
         then Some (pathParts ! 0)
         else None)"

text \<open>The name handed to \<open>idFromName\<close>: the template \<open>user-${userId}\<close>.\<close>

definition locator_name :: "string \<Rightarrow> string" where
  "locator_name userId = ''user-'' @ userId"

text \<open>
  The locator of an identity: the platform's \<open>idFromName\<close>, a parameter, applied to the
  name.
\<close>

definition locate :: "(string \<Rightarrow> 'id) \<Rightarrow> string \<Rightarrow> 'id" where
  "locate idFromName userId = idFromName (locator_name userId)"

text \<open>
  What the default export's \<open>fetch\<close> does with a request: answers it itself with a
  status and a plain-text body, hands it to the durable object addressed by a locator, or
  hands it to the page handler (\<open>requestHandler\<close>).
\<close>

datatype ('id, 'p) routed =
    Rejected nat string
  | To_actor 'id "'p request"
  | To_page_handler "'p request"

definition entry_fetch :: "(string \<Rightarrow> 'id) \<Rightarrow> 'p request \<Rightarrow> ('id, 'p) routed" where
  "entry_fetch idFromName req =
     (if includes_sub (pathname req) ''sse'' \<or> endsWith (pathname req) ''/messages''
      then (case extractUserIdFromPath (pathname req) of
              None \<Rightarrow> Rejected 400 ''Invalid request: userId not found in path''
            | Some userId \<Rightarrow>
                if userId = [] then Rejected 400 ''Invalid request: userId not found in path''
                else if \<not> isValidUserId userId
                then Rejected 400 ''Invalid request: malformed userId''
                else To_actor (locate idFromName userId) req)
      else To_page_handler req)"

section \<open>Tool handlers and the user-scoped tool server\<close>

text \<open>
  A thrown value: \<open>new Error(message)\<close>, or the \<open>ReferenceError\<close> of evaluating an
  identifier that no scope binds.
\<close>

datatype js_error = Error string | ReferenceError string

fun message_of :: "js_error \<Rightarrow> string" where
  "message_of (Error m) = m"
| "message_of (ReferenceError name) = name @ '' is not defined''"

text \<open>
  The calls a handler issues to the external memory store, each with the
  \<open>containerTags\<close> it passes.
\<close>

datatype store_call =
    Memories_list "string list"
  | Memories_add string "string list"
  | Search_execute string "string list"

fun containerTags :: "store_call \<Rightarrow> string list" where
  "containerTags (Memories_list tags) = tags"
| "containerTags (Memories_add content tags) = tags"
| "containerTags (Search_execute q tags) = tags"

text \<open>
  The client of the external store, a parameter: what it answers to each call, a rejected
  promise being \<open>Inl\<close>. A search result is the list of the contents of its chunks.
\<close>

record 'm supermemory =
  memories_list :: "string list \<Rightarrow> js_error + 'm list"
  memories_add :: "string \<Rightarrow> string list \<Rightarrow> js_error + unit"
  search_execute :: "string \<Rightarrow> string list \<Rightarrow> js_error + string list list"

text \<open>\<open>c.json([{type: "text", text}], status)\<close>.\<close>

datatype tool_response = Tool_response nat string

text \<open>\<open>xs.join(sep)\<close>.\<close>

fun join :: "string \<Rightarrow> string list \<Rightarrow> string" where
  "join sep [] = []"
| "join sep [x] = x"
| "join sep (x # y # ys) = x @ sep @ join sep (y # ys)"

text \<open>
  A handler as the sequence of its awaited calls to the store: it returns, or it awaits
  \<open>memories.list\<close>, \<open>memories.add\<close> or \<open>search.execute\<close> with the given
  \<open>containerTags\<close> and goes on with the answer. The answer of \<open>memories.add\<close> is not
  looked at.
\<close>

datatype ('m, 'a) store_prog =
    Return 'a
  | Await_list "string list" "'m list \<Rightarrow> ('m, 'a) store_prog"
  | Await_add string "string list" "('m, 'a) store_prog"
  | Await_search string "string list" "string list list \<Rightarrow> ('m, 'a) store_prog"

text \<open>
  Running a handler against a client: every awaited call is handed to the client with the
  arguments of its node and recorded with those arguments; a rejected promise ends the
  handler with the error. The result is the calls issued, in order, and the handler's
  response or the error it threw.
\<close>

primrec run :: "'m supermemory \<Rightarrow> ('m, 'a) store_prog \<Rightarrow> store_call list \<times> (js_error + 'a)" where
  "run client (Return x) = ([], Inr x)"
| "run client (Await_list tags k) =
     (case memories_list client tags of
        Inl e \<Rightarrow> ([Memories_list tags], Inl e)
      | Inr memories \<Rightarrow>
          (case run client (k memories) of (calls, r) \<Rightarrow> (Memories_list tags # calls, r)))"
| "run client (Await_add content tags k) =
     (case memories_add client content tags of
        Inl e \<Rightarrow> ([Memories_add content tags], Inl e)
      | Inr u \<Rightarrow> (case run client k of (calls, r) \<Rightarrow> (Memories_add content tags # calls, r)))"
| "run client (Await_search q tags k) =
     (case search_execute client q tags of
        Inl e \<Rightarrow> ([Search_execute q tags], Inl e)
      | Inr results \<Rightarrow>
          (case run client (k results) of (calls, r) \<Rightarrow> (Search_execute q tags # calls, r)))"

text \<open>The body of the handler of \<open>/add\<close>, with the \<open>userId\<close> its closure captured.\<close>

definition add_body :: "string \<Rightarrow> string \<Rightarrow> ('m, tool_response) store_prog" where
  "add_body userId thingToRemember =
     (if userId = [] \<or> \<not> isValidUserId userId
      then Return (Tool_response 400 ''User ID validation failed'')
      else Await_list [userId]
             (\<lambda>memories.
                if length memories > 2000
                then Return (Tool_response 400 ''Memory limit of 2000 memories exceeded'')
                else Await_add thingToRemember [userId]
                       (Return (Tool_response 200 ''Memory added successfully''))))"

text \<open>
  The handler of \<open>/add\<close> against a client: the calls it issued to the store, in order,
  and its response or the error it threw.
\<close>

definition add_handler ::
  "'m supermemory \<Rightarrow> string \<Rightarrow> string \<Rightarrow> store_call list \<times> (js_error + tool_response)" where
  "add_handler client userId thingToRemember = run client (add_body userId thingToRemember)"

text \<open>
  The body of the handler of \<open>/search\<close>. The template literal turns the array of joined
  chunks into a string with \<open>Array.prototype.toString\<close>, which joins with a comma.
\<close>

definition search_body :: "string \<Rightarrow> string \<Rightarrow> ('m, tool_response) store_prog" where
  "search_body userId informationToGet =
     (if userId = [] \<or> \<not> isValidUserId userId
      then Return (Tool_response 400 ''User ID validation failed'')
      else Await_search informationToGet [userId]
             (\<lambda>results.
                Return (Tool_response 200
                  (join '','' (map (\<lambda>chunks. join [CHR 0x0A, CHR 0x0A] chunks) results)))))"

definition search_handler ::
  "'m supermemory \<Rightarrow> string \<Rightarrow> string \<Rightarrow> store_call list \<times> (js_error + tool_response)" where
  "search_handler client userId informationToGet = run client (search_body userId informationToGet)"

text \<open>
  A route of a Hono application: its path, what \<open>describePrompt\<close> or \<open>describeTool\<close>
  announces for it, and its handler, a closure over the \<open>userId\<close> of
  \<open>createSuperMemory\<close>.
\<close>

datatype descriptor = Prompt string | Tool string

datatype closure = Prompt_handler | Add_handler string | Search_handler string

datatype route = Route string descriptor closure

type_synonym hono_app = "route list"

text \<open>
  The Hono applications in scope, by identifier. At module level the file binds
  \<open>requestHandler\<close>, \<open>createSuperMemory\<close>, \<open>MyDurableObject\<close>,
  \<open>extractUserIdFromPath\<close>, \<open>isValidUserId\<close> and its imports; none of them is a Hono
  application.
\<close>

type_synonym scope = "string \<rightharpoonup> hono_app"

definition module_scope :: scope where
  "module_scope = Map.empty"

text \<open>
  \<open>name.post(path, describe, handler)\<close>: evaluating an identifier that is not bound
  throws; otherwise the route is appended to the application the identifier denotes.
\<close>

definition post_route :: "scope \<Rightarrow> string \<Rightarrow> route \<Rightarrow> js_error + scope" where
  "post_route sc name r =
     (case sc name of
        None \<Rightarrow> Inl (ReferenceError name)
      | Some a \<Rightarrow> Inr (sc(name \<mapsto> a @ [r])))"

text \<open>
  \<open>createSuperMemory\<close>: \<open>userApp\<close> is a fresh application; the prompt is posted on
  \<open>userApp\<close>, \<open>/add\<close> on \<open>app\<close>, \<open>/search\<close> on \<open>userApp\<close>, and \<open>userApp\<close>
  is returned.
\<close>

definition createSuperMemory :: "string \<Rightarrow> js_error + hono_app" where
  "createSuperMemory userId =
     (let sc0 = module_scope(''userApp'' \<mapsto> [])
      in case post_route sc0 ''userApp''
                (Route ''/supermemory-prompt'' (Prompt ''Supermemory Prompt'') Prompt_handler) of
           Inl e \<Rightarrow> Inl e
         | Inr sc1 \<Rightarrow>
            (case post_route sc1 ''app''
                    (Route ''/add'' (Tool ''addToSupermemory'') (Add_handler userId)) of
               Inl e \<Rightarrow> Inl e
             | Inr sc2 \<Rightarrow>
                (case post_route sc2 ''userApp''
                        (Route ''/search'' (Tool ''searchSupermemory'') (Search_handler userId)) of
                   Inl e \<Rightarrow> Inl e
                 | Inr sc3 \<Rightarrow>
                    (case sc3 ''userApp'' of
                       None \<Rightarrow> Inl (ReferenceError ''userApp'')
                     | Some a \<Rightarrow> Inr a))))"

section \<open>The durable object\<close>

text \<open>\<open>UserContext\<close>; a \<open>Date\<close> is its time value.\<close>

record user_context =
  userId :: string
  createdAt :: nat
  lastAccessed :: nat

text \<open>
  Modelled from the spec: the state of \<open>SSEHonoTransport\<close>, a class of the streaming
  library whose source is not in \<open>src/\<close>. The endpoint and the session id are the
  arguments of its constructor; the spec's Duplex Transport State adds whether a stream is
  attached (\<open>connectWithStream\<close>) and the posted messages held for the protocol bridge.
\<close>

record 'p sse_transport =
  endpoint :: string
  sessionId :: string
  connected :: bool
  inbox :: "'p list"

text \<open>
  Modelled from the spec: the error of \<open>handlePostMessage\<close> of \<open>SSEHonoTransport\<close>,
  whose source is not in \<open>src/\<close>. The spec's \<open>deliverInbound(message)\<close> fails with
  TransportNotReady if no stream is attached and otherwise enqueues the message for the
  protocol bridge in arrival order. The spec names the failure and gives no message; the
  name stands for the message.
\<close>

definition transport_not_ready :: js_error where
  "transport_not_ready = Error ''TransportNotReady''"

text \<open>
  Modelled from the spec: \<open>handlePostMessage\<close>, the spec's \<open>deliverInbound\<close>; the
  failure is a thrown error.
\<close>

definition handlePostMessage :: "'p sse_transport \<Rightarrow> 'p \<Rightarrow> js_error + 'p sse_transport" where
  "handlePostMessage t message =
     (if \<not> connected t then Inl transport_not_ready
      else Inr (t\<lparr>inbox := inbox t @ [message]\<rparr>))"

text \<open>
  \<open>MyDurableObject\<close>: the id of the instance, the value stored under the key
  \<open>userContext\<close> in durable storage, and the two private fields.
\<close>

record 'p actor =
  actor_id :: string
  storage :: "user_context option"
  userContext :: "user_context option"
  transport :: "'p sse_transport option"

text \<open>
  \<open>validateAndSetUserContext\<close>. \<open>clock k\<close> is the value of the \<open>k\<close>-th
  \<open>new Date()\<close> of the request. The only \<open>throw\<close> precedes every assignment and every
  \<open>put\<close>, so the error carries no state. The reads and writes of durable storage are
  taken to succeed.
\<close>

definition validateAndSetUserContext ::
  "(nat \<Rightarrow> nat) \<Rightarrow> 'p actor \<Rightarrow> string \<Rightarrow> js_error + 'p actor" where
  "validateAndSetUserContext clock this requestUserId =
     (case storage this of
        Some storedContext \<Rightarrow>
          if userId storedContext \<noteq> requestUserId
          then Inl (Error (''Security violation: User context mismatch. Expected '' @
                           userId storedContext @ '', got '' @ requestUserId))
          else (let storedContext' = storedContext\<lparr>lastAccessed := clock 0\<rparr>
                in Inr (this\<lparr>userContext := Some storedContext',
                              storage := Some storedContext'\<rparr>))
      | None \<Rightarrow>
          (let fresh = \<lparr>userId = requestUserId, createdAt = clock 0, lastAccessed = clock 1\<rparr>
           in Inr (this\<lparr>userContext := Some fresh, storage := Some fresh\<rparr>)))"

text \<open>\<open>getOrCreateTransport\<close>, for its effect on \<open>this.transport\<close>.\<close>

definition getOrCreateTransport :: "'p actor \<Rightarrow> string \<Rightarrow> 'p actor" where
  "getOrCreateTransport this uid =
     (case transport this of
        None \<Rightarrow>
          this\<lparr>transport :=
                 Some \<lparr>endpoint = ''/'' @ uid @ ''/messages'', sessionId = actor_id this,
                       connected = False, inbox = []\<rparr>\<rparr>
      | Some t \<Rightarrow> this)"

text \<open>
  A response: its status and its body. The body of a stream-open response records what
  the streaming callback did: the error that ended it, or the application it handed to
  \<open>bridge\<close>. Headers are left out.
\<close>

datatype body =
    Text string
  | Json_error string
  | No_body
  | Event_stream "js_error + hono_app"

datatype response = Response nat body

text \<open>
  \<open>c.req.param("userId")\<close> under \<open>basePath("/:userId")\<close>: the first segment of the
  path, which the pattern requires to be non-empty, decoded by the framework when it
  contains a percent sign. The decoder \<open>dec\<close> is a parameter.
\<close>

definition param_userId :: "(string \<Rightarrow> string) \<Rightarrow> string \<Rightarrow> string option" where
  "param_userId dec path =
     (case split path CHR ''/'' of
        [] # seg # rest \<Rightarrow>
          if seg = [] then None
          else Some (if CHR ''%'' \<in> set seg then dec seg else seg)
      | _ \<Rightarrow> None)"

text \<open>The first middleware of the server: a response, or \<open>next()\<close> with \<open>userId\<close> set.\<close>

datatype mw_result = Mw_respond response | Mw_next string

definition userId_middleware :: "'p actor \<Rightarrow> string \<Rightarrow> mw_result" where
  "userId_middleware this uid =
     (if uid = [] \<or> \<not> isValidUserId uid
      then Mw_respond (Response 400 (Json_error ''Invalid or missing user ID''))
      else if Some uid \<noteq> map_option userId (userContext this)
      then Mw_respond (Response 403 (Json_error ''User context validation failed''))
      else Mw_next uid)"

text \<open>
  The handler of \<open>GET /sse\<close>: the stream is attached to the transport, if there is one,
  and the callback evaluates \<open>createSuperMemory(userId, c.env)\<close> as an argument of
  \<open>bridge\<close>.
\<close>

definition sse_route :: "'p actor \<Rightarrow> string \<Rightarrow> response \<times> 'p actor" where
  "sse_route this uid =
     (Response 200 (Event_stream (createSuperMemory uid)),
      this\<lparr>transport := map_option (\<lambda>t. t\<lparr>connected := True\<rparr>) (transport this)\<rparr>)"

text \<open>
  The handler of \<open>POST /messages\<close> followed by \<open>onError\<close>: an error thrown by the
  handler becomes a 500 response whose body is the message.
\<close>

definition messages_route :: "'p actor \<Rightarrow> 'p \<Rightarrow> response \<times> 'p actor" where
  "messages_route this message =
     (case transport this of
        None \<Rightarrow> (Response 500 (Text (message_of (Error ''Transport not initialized''))), this)
      | Some t \<Rightarrow>
          (case handlePostMessage t message of
             Inl err \<Rightarrow> (Response 500 (Text (message_of err)), this)
           | Inr t' \<Rightarrow> (Response 200 (Text ''ok''), this\<lparr>transport := Some t'\<rparr>)))"

text \<open>
  \<open>server.fetch\<close>: the middleware on \<open>/:userId/*\<close>, then \<open>cors\<close>, which answers a
  preflight itself, then the route of the method and path, or the framework's 404. A
  \<open>HEAD\<close> request is dispatched as \<open>GET\<close> and answered without a body.
\<close>

definition dispatch :: "'p actor \<Rightarrow> string \<Rightarrow> 'p request \<Rightarrow> response \<times> 'p actor" where
  "dispatch this uid req =
     (case split (pathname req) CHR ''/'' of
        [[], seg, leaf] \<Rightarrow>
          if leaf = ''sse'' \<and> (req_method req = GET \<or> req_method req = HEAD) then sse_route this uid
          else if leaf = ''messages'' \<and> req_method req = POST
          then messages_route this (payload req)
          else (Response 404 (Text ''404 Not Found''), this)
      | _ \<Rightarrow> (Response 404 (Text ''404 Not Found''), this))"

definition strip_body :: "response \<Rightarrow> response" where
  "strip_body r = (case r of Response status b \<Rightarrow> Response status No_body)"

definition server_fetch ::
  "(string \<Rightarrow> string) \<Rightarrow> 'p actor \<Rightarrow> 'p request \<Rightarrow> response \<times> 'p actor" where
  "server_fetch dec this req =
     (case param_userId dec (pathname req) of
        None \<Rightarrow> (Response 404 (Text ''404 Not Found''), this)
      | Some uid \<Rightarrow>
          (case userId_middleware this uid of
             Mw_respond r \<Rightarrow> (r, this)
           | Mw_next uid' \<Rightarrow>
               if req_method req = OPTIONS then (Response 204 No_body, this)
               else if req_method req = HEAD
               then (case dispatch this uid' req of (r, this') \<Rightarrow> (strip_body r, this'))
               else dispatch this uid' req))"

text \<open>\<open>MyDurableObject.fetch\<close>: the response and the object after the request.\<close>

definition fetch ::
  "(string \<Rightarrow> string) \<Rightarrow> (nat \<Rightarrow> nat) \<Rightarrow> 'p actor \<Rightarrow> 'p request \<Rightarrow> response \<times> 'p actor" where
  "fetch dec clock this req =
     (case at_index (split (pathname req) CHR ''/'') 1 of
        None \<Rightarrow> (Response 400 (Text ''Invalid or missing userId in request path''), this)
      | Some requestUserId \<Rightarrow>
          if requestUserId = [] \<or> \<not> isValidUserId requestUserId
          then (Response 400 (Text ''Invalid or missing userId in request path''), this)
          else (case validateAndSetUserContext clock this requestUserId of
                  Inl error \<Rightarrow>
                    (Response 403 (Text (''Security validation failed: '' @ message_of error)),
                     this)
                | Inr this' \<Rightarrow>
                    server_fetch dec (getOrCreateTransport this' requestUserId) req))"

section \<open>The identity validator\<close>

lemma match_rep_iff:
  "match_rep cls lo hi s \<longleftrightarrow> (\<forall>c \<in> set s. cls c) \<and> lo \<le> length s \<and> length s \<le> hi"
proof (induction s arbitrary: lo hi)
  case Nil
  show ?case by simp
next
  case (Cons c cs)
  show ?case by (auto simp: Cons.IH)
qed

lemma userid_class_alphabet:
  "userid_class c \<longleftrightarrow>
     c \<in> set ''ABCDEFGHIJKLMNOPQRSTUVWXYZabcdefghijklmnopqrstuvwxyz0123456789_-''"
  by (cases c) (simp add: userid_class_def in_range_def)

lemma userid_class_not_reserved:
  "userid_class c \<Longrightarrow> c \<noteq> CHR ''/'' \<and> c \<noteq> CHR ''%''"
  by (auto simp: userid_class_def in_range_def)

lemma valid_userId_plain:
  assumes "isValidUserId s"
  shows "CHR ''/'' \<notin> set s" and "CHR ''%'' \<notin> set s" and "s \<noteq> []"
  using assms userid_class_not_reserved
  by (auto simp: isValidUserId_def match_rep_iff)

lemma valid_abc: "isValidUserId ''abc12345678901234567''"
  by (simp add: isValidUserId_def userid_class_def in_range_def)

lemma invalid_bad_id: "\<not> isValidUserId ''bad id!''"
  by (simp add: isValidUserId_def userid_class_def in_range_def)

lemma valid_b10: "isValidUserId ''bbbbbbbbbb''"
  by (simp add: isValidUserId_def userid_class_def in_range_def)

lemma valid_j10: "isValidUserId ''abcdefghij''"
  by (simp add: isValidUserId_def userid_class_def in_range_def)

text \<open>
  C8. The validator accepts a string exactly when all its characters are letters, digits,
  underscore or hyphen and its length is between 10 and 50 inclusive. It is a function of
  the string alone: the regular expression has no \<open>g\<close> or \<open>y\<close> flag, so \<open>test\<close> keeps
  no position between calls.
\<close>

theorem isValidUserId_iff:
  "isValidUserId s \<longleftrightarrow>
     set s \<subseteq> set ''ABCDEFGHIJKLMNOPQRSTUVWXYZabcdefghijklmnopqrstuvwxyz0123456789_-'' \<and>
     10 \<le> length s \<and> length s \<le> 50"
  unfolding isValidUserId_def match_rep_iff subset_iff userid_class_alphabet by blast

theorem isValidUserId_iff_witness:
  "(set ''abc12345678901234567''
      \<subseteq> set ''ABCDEFGHIJKLMNOPQRSTUVWXYZabcdefghijklmnopqrstuvwxyz0123456789_-'' \<and>
    10 \<le> length ''abc12345678901234567'' \<and> length ''abc12345678901234567'' \<le> 50) \<and>
   \<not> (set ''bad id!''
      \<subseteq> set ''ABCDEFGHIJKLMNOPQRSTUVWXYZabcdefghijklmnopqrstuvwxyz0123456789_-'' \<and>
    10 \<le> length ''bad id!'' \<and> length ''bad id!'' \<le> 50)"
  using isValidUserId_iff [of "''abc12345678901234567''"] isValidUserId_iff [of "''bad id!''"]
    valid_abc invalid_bad_id
  by blast

section \<open>The locator\<close>

text \<open>
  C7. The locator is a function of the identity alone, so every computation of it gives
  the same key. The names \<open>user-I\<close> and \<open>user-J\<close> are equal only if \<open>I = J\<close>, and
  so are the locators whenever the platform's \<open>idFromName\<close> maps distinct names to
  distinct ids.
\<close>

theorem locator_deterministic_injective:
  "(locator_name I = locator_name J \<longleftrightarrow> I = J) \<and>
   (inj idFromName \<longrightarrow> (locate idFromName I = locate idFromName J \<longleftrightarrow> I = J))"
  by (auto simp: locate_def locator_name_def dest: injD)

theorem locator_deterministic_injective_witness:
  "inj (\<lambda>name :: string. name) \<and>
   locate (\<lambda>name. name) ''abcdefghij'' = locate (\<lambda>name. name) ''abcdefghij'' \<and>
   locate (\<lambda>name. name) ''abcdefghij'' \<noteq> locate (\<lambda>name. name) ''abcdefghik''"
  using locator_deterministic_injective [of "''abcdefghij''" "''abcdefghik''" "\<lambda>name. name"]
  by simp

section \<open>Paths\<close>

lemma split_acc_segment:
  "sep \<notin> set s \<Longrightarrow> split_acc sep acc (s @ sep # r) = (rev acc @ s) # split_acc sep [] r"
  by (induction s arbitrary: acc) auto

lemma split_acc_last:
  "sep \<notin> set s \<Longrightarrow> split_acc sep acc s = [rev acc @ s]"
  by (induction s arbitrary: acc) auto

lemma split_acc_not_Nil: "split_acc sep acc s \<noteq> []"
  by (induction s arbitrary: acc) auto

lemma split_leading: "split (sep # p) sep = [] # split p sep"
  by (simp add: split_def)

lemma split_segment: "sep \<notin> set s \<Longrightarrow> split (s @ sep # r) sep = s # split r sep"
  by (simp add: split_def split_acc_segment)

lemma split_last: "sep \<notin> set s \<Longrightarrow> split s sep = [s]"
  by (simp add: split_def split_acc_last)

lemma split_session_path:
  assumes "isValidUserId I" and "p = ''/'' @ I @ ''/'' @ leaf" and "CHR ''/'' \<notin> set leaf"
  shows "split p CHR ''/'' = [[], I, leaf]"
  using assms valid_userId_plain(1) [of I]
  by (simp add: split_leading split_segment split_last)

lemma split_messages_path:
  assumes "isValidUserId I" and "p = ''/'' @ I @ ''/messages''"
  shows "split p CHR ''/'' = [[], I, ''messages'']"
  using assms valid_userId_plain(1) [of I]
  by (simp add: split_leading split_segment split_last)

lemma requestUserId_of_path:
  assumes "isValidUserId J"
    and "p = ''/'' @ J \<or> (\<exists>rest. p = ''/'' @ J @ ''/'' @ rest)"
  shows "at_index (split p CHR ''/'') 1 = Some J"
  using assms valid_userId_plain(1) [of J]
  by (auto simp: at_index_def split_leading split_segment split_last)

lemma startsWith_iff: "startsWith s t \<longleftrightarrow> (\<exists>ss. s = t @ ss)"
  by (induction s t rule: startsWith.induct) auto

lemma includes_sub_iff: "includes_sub s t \<longleftrightarrow> (\<exists>ps ss. s = ps @ t @ ss)"
proof (induction s)
  case Nil
  show ?case by auto
next
  case (Cons c cs)
  show ?case
  proof
    assume "includes_sub (c # cs) t"
    then consider "startsWith (c # cs) t" | "includes_sub cs t" by auto
    then show "\<exists>ps ss. c # cs = ps @ t @ ss"
    proof cases
      case 1
      then obtain ss where "c # cs = t @ ss" by (auto simp: startsWith_iff)
      then have "c # cs = [] @ t @ ss" by simp
      then show ?thesis by blast
    next
      case 2
      then obtain ps ss where "cs = ps @ t @ ss" using Cons.IH by blast
      then have "c # cs = (c # ps) @ t @ ss" by simp
      then show ?thesis by blast
    qed
  next
    assume "\<exists>ps ss. c # cs = ps @ t @ ss"
    then obtain ps ss where eq: "c # cs = ps @ t @ ss" by blast
    show "includes_sub (c # cs) t"
    proof (cases ps)
      case Nil
      with eq have "startsWith (c # cs) t" by (auto simp: startsWith_iff)
      then show ?thesis by simp
    next
      case (Cons p ps')
      with eq have "cs = ps' @ t @ ss" by simp
      then have "includes_sub cs t" using Cons.IH by blast
      then show ?thesis by simp
    qed
  qed
qed

lemma endsWith_iff: "endsWith s t \<longleftrightarrow> (\<exists>ps. s = ps @ t)"
proof
  assume "endsWith s t"
  then have "s = take (length s - length t) s @ t"
    by (metis append_take_drop_id endsWith_def)
  then show "\<exists>ps. s = ps @ t" ..
next
  assume "\<exists>ps. s = ps @ t"
  then show "endsWith s t" by (auto simp: endsWith_def)
qed

section \<open>The entry router\<close>

lemma entry_fetch_gate:
  "entry_fetch idFromName req = To_page_handler req \<longleftrightarrow>
     \<not> (includes_sub (pathname req) ''sse'' \<or> endsWith (pathname req) ''/messages'')"
  by (simp add: entry_fetch_def split: option.splits)

text \<open>
  A stream-open or message-post path of a valid identity is handed to the durable object
  that the identity's locator addresses.
\<close>

lemma entry_fetch_session_path:
  assumes "isValidUserId I"
    and "pathname req = ''/'' @ I @ ''/sse'' \<or> pathname req = ''/'' @ I @ ''/messages''"
  shows "entry_fetch idFromName req = To_actor (locate idFromName I) req"
proof -
  from assms(2) obtain leaf where leaf: "leaf = ''sse'' \<or> leaf = ''messages''"
    and p: "pathname req = ''/'' @ I @ ''/'' @ leaf" by auto
  from leaf have "CHR ''/'' \<notin> set leaf" by auto
  with assms(1) p have "split (pathname req) CHR ''/'' = [[], I, leaf]"
    by (rule split_session_path)
  then have parts: "filter_Boolean (split (pathname req) CHR ''/'') = [I, leaf]"
    using valid_userId_plain(3) [OF assms(1)] leaf by (auto simp: filter_Boolean_def)
  have "extractUserIdFromPath (pathname req) = Some I"
    using leaf by (auto simp: extractUserIdFromPath_def parts)
  moreover have "includes_sub (pathname req) ''sse'' \<or> endsWith (pathname req) ''/messages''"
  proof (rule disjE [OF leaf])
    assume "leaf = ''sse''"
    with p have "pathname req = (''/'' @ I @ ''/'') @ ''sse'' @ []" by simp
    then have "includes_sub (pathname req) ''sse''"
      unfolding includes_sub_iff by blast
    then show ?thesis ..
  next
    assume "leaf = ''messages''"
    with p have "pathname req = (''/'' @ I) @ ''/messages''" by simp
    then have "endsWith (pathname req) ''/messages''"
      unfolding endsWith_iff by blast
    then show ?thesis ..
  qed
  ultimately show ?thesis
    using assms(1) valid_userId_plain(3) [OF assms(1)] by (simp add: entry_fetch_def)
qed

text \<open>
  C5, as amended. A request whose path neither contains \<open>sse\<close> nor ends with
  \<open>/messages\<close> is handed unchanged to the page handler: it is neither routed to a
  durable object nor answered by the router.
\<close>

theorem entry_fetch_falls_through:
  assumes "\<not> (\<exists>ps ss. pathname req = ps @ ''sse'' @ ss)"
    and "\<not> (\<exists>ps. pathname req = ps @ ''/messages'')"
  shows "entry_fetch idFromName req = To_page_handler req"
  using assms unfolding entry_fetch_gate includes_sub_iff endsWith_iff by blast

theorem entry_fetch_falls_through_witness:
  "entry_fetch id \<lparr>req_method = GET, pathname = ''/about'', payload = ()\<rparr>
     = To_page_handler \<lparr>req_method = GET, pathname = ''/about'', payload = ()\<rparr>"
proof -
  have sse: "\<not> (\<exists>ps ss. ''/about'' = ps @ ''sse'' @ ss)"
    unfolding includes_sub_iff [symmetric] by simp
  have messages: "\<not> (\<exists>ps. ''/about'' = ps @ ''/messages'')"
    unfolding endsWith_iff [symmetric] by (simp add: endsWith_def)
  show ?thesis
    using entry_fetch_falls_through
        [of "\<lparr>req_method = GET, pathname = ''/about'', payload = ()\<rparr>" id]
      sse messages
    by simp
qed

text \<open>
  C5, as stated, fails: \<open>/messages\<close> and \<open>/classes\<close> are not of the form
  \<open>/{identity}/sse\<close> or \<open>/{identity}/messages\<close>, and the router answers them with 400;
  \<open>/abcdefghij/sse/extra\<close> is not of that form either, and the router hands it to a
  durable object.
\<close>

theorem entry_fetch_other_paths_not_forwarded:
  "entry_fetch id \<lparr>req_method = GET, pathname = ''/messages'', payload = ()\<rparr>
     = Rejected 400 ''Invalid request: userId not found in path'' \<and>
   entry_fetch id \<lparr>req_method = GET, pathname = ''/classes'', payload = ()\<rparr>
     = Rejected 400 ''Invalid request: userId not found in path'' \<and>
   entry_fetch id \<lparr>req_method = GET, pathname = ''/abcdefghij/sse/extra'', payload = ()\<rparr>
     = To_actor ''user-abcdefghij''
         \<lparr>req_method = GET, pathname = ''/abcdefghij/sse/extra'', payload = ()\<rparr>"
  using valid_j10
  by (simp add: entry_fetch_def endsWith_def extractUserIdFromPath_def filter_Boolean_def
      split_def locate_def locator_name_def)

section \<open>The tool handlers\<close>

text \<open>The quota check of the \<open>/add\<close> handler, once the listing has succeeded.\<close>

lemma add_handler_quota:
  assumes "isValidUserId uid" and "memories_list client [uid] = Inr memories"
  shows "add_handler client uid thing =
     (if 2000 < length memories
      then ([Memories_list [uid]],
            Inr (Tool_response 400 ''Memory limit of 2000 memories exceeded''))
      else (case memories_add client thing [uid] of
              Inl e \<Rightarrow> ([Memories_list [uid], Memories_add thing [uid]], Inl e)
            | Inr u \<Rightarrow> ([Memories_list [uid], Memories_add thing [uid]],
                        Inr (Tool_response 200 ''Memory added successfully''))))"
  using assms valid_userId_plain(3) [OF assms(1)]
  by (simp add: add_handler_def add_body_def split: sum.splits)

text \<open>
  C2. The specification asks for a rejection without mutation when the identity already holds
  2000 items. With a listing of exactly 2000 memories the handler's test
  \<open>memories.length > 2000\<close> is false: it calls \<open>memories.add\<close> and reports success.
\<close>

theorem add_handler_at_limit_adds:
  "add_handler
     \<lparr>memories_list = (\<lambda>tags. Inr (replicate 2000 ())),
      memories_add = (\<lambda>content tags. Inr ()),
      search_execute = (\<lambda>q tags. Inr [])\<rparr>
     ''abcdefghij'' ''prefers dark mode''
   = ([Memories_list [''abcdefghij''], Memories_add ''prefers dark mode'' [''abcdefghij'']],
      Inr (Tool_response 200 ''Memory added successfully''))"
  using valid_j10 by (simp add: add_handler_def add_body_def)

text \<open>
  A handler hands the client only the scope of the \<open>userId\<close> it was created for: every
  call it issues carries that singleton, and two clients that answer alike on that scope
  give the same run.
\<close>

lemma add_handler_calls_scoped:
  "\<forall>call \<in> set (fst (add_handler client uid thing)). containerTags call = [uid]"
  by (auto simp: add_handler_def add_body_def split: sum.splits prod.splits if_splits)

lemma search_handler_calls_scoped:
  "\<forall>call \<in> set (fst (search_handler client uid q)). containerTags call = [uid]"
  by (auto simp: search_handler_def search_body_def split: sum.splits prod.splits if_splits)

lemma add_handler_calls:
  assumes "isValidUserId uid"
  shows "fst (add_handler client uid thing) = [Memories_list [uid]] \<or>
         fst (add_handler client uid thing) = [Memories_list [uid], Memories_add thing [uid]]"
  using assms valid_userId_plain(3) [OF assms]
  by (simp add: add_handler_def add_body_def split: sum.splits)

lemma search_handler_calls:
  assumes "isValidUserId uid"
  shows "fst (search_handler client uid q) = [Search_execute q [uid]]"
  using assms valid_userId_plain(3) [OF assms]
  by (simp add: search_handler_def search_body_def split: sum.splits)

lemma add_handler_own_scope:
  assumes "memories_list c1 [uid] = memories_list c2 [uid]"
    and "memories_add c1 thing [uid] = memories_add c2 thing [uid]"
  shows "add_handler c1 uid thing = add_handler c2 uid thing"
  using assms by (simp add: add_handler_def add_body_def split: sum.splits)

lemma search_handler_own_scope:
  assumes "search_execute c1 q [uid] = search_execute c2 q [uid]"
  shows "search_handler c1 uid q = search_handler c2 uid q"
  using assms by (simp add: search_handler_def search_body_def split: sum.splits)

section \<open>The tool server\<close>

lemma createSuperMemory_ReferenceError:
  "createSuperMemory uid = Inl (ReferenceError ''app'')"
  by (simp add: createSuperMemory_def post_route_def module_scope_def)

text \<open>
  C4. The specification asks that \<open>createSuperMemory\<close> return, for every validated identity, an
  application with both tools and the prompt, and that an opened stream expose them. For
  every identity it throws instead: the route \<open>/add\<close> is posted on \<open>app\<close>, an
  identifier that nothing binds, where the two sibling routes use \<open>userApp\<close>. A stream
  opened on a fresh object for \<open>abcdefghij\<close> is answered with status 200 and its
  callback ends with that error before \<open>bridge\<close> is called.
\<close>

theorem createSuperMemory_throws:
  "createSuperMemory uid = Inl (ReferenceError ''app'') \<and>
   fst (fetch id Suc
          \<lparr>actor_id = ''do'', storage = None, userContext = None, transport = None\<rparr>
          \<lparr>req_method = GET, pathname = ''/abcdefghij/sse'', payload = ()\<rparr>)
     = Response 200 (Event_stream (Inl (ReferenceError ''app'')))"
  using valid_j10
  by (simp add: createSuperMemory_ReferenceError fetch_def at_index_def split_def
      validateAndSetUserContext_def getOrCreateTransport_def server_fetch_def param_userId_def
      userId_middleware_def dispatch_def sse_route_def Let_def)

section \<open>The durable object: identity binding\<close>

lemma validate_mismatch:
  "storage this = Some ctx \<Longrightarrow> userId ctx \<noteq> J \<Longrightarrow>
   validateAndSetUserContext clock this J =
     Inl (Error (''Security violation: User context mismatch. Expected '' @ userId ctx @
                 '', got '' @ J))"
  by (simp add: validateAndSetUserContext_def)

lemma validate_binds:
  assumes "validateAndSetUserContext clock this u = Inr this'"
  shows "map_option userId (userContext this') = Some u"
    and "map_option userId (storage this') = Some u"
    and "transport this' = transport this"
  using assms
  by (auto simp: validateAndSetUserContext_def Let_def split: option.splits if_splits)

lemma validate_ok:
  assumes "storage this = None \<or> (\<exists>ctx. storage this = Some ctx \<and> userId ctx = I)"
  shows "\<exists>this'. validateAndSetUserContext clock this I = Inr this' \<and>
           map_option userId (userContext this') = Some I \<and>
           map_option userId (storage this') = Some I \<and>
           transport this' = transport this \<and> actor_id this' = actor_id this"
  using assms by (auto simp: validateAndSetUserContext_def Let_def)

lemma getOrCreateTransport_userContext:
  "userContext (getOrCreateTransport this u) = userContext this"
  by (simp add: getOrCreateTransport_def split: option.splits)

text \<open>
  A request that asserts \<open>J\<close> to an object whose stored context belongs to another
  identity: the whole answer, and the object after it.
\<close>

lemma fetch_mismatch:
  assumes "isValidUserId J" and "storage this = Some ctx" and "userId ctx \<noteq> J"
    and "pathname req = ''/'' @ J \<or> (\<exists>rest. pathname req = ''/'' @ J @ ''/'' @ rest)"
  shows "fetch dec clock this req =
     (Response 403 (Text (''Security validation failed: Security violation: User context mismatch. Expected '' @ userId ctx @ '', got '' @ J)), this)"
proof -
  have "at_index (split (pathname req) CHR ''/'') 1 = Some J"
    using assms(1,4) by (rule requestUserId_of_path)
  moreover have "J \<noteq> []"
    using assms(1) by (rule valid_userId_plain(3))
  ultimately show ?thesis
    using assms(1-3) by (simp add: fetch_def validate_mismatch)
qed

text \<open>
  C1. An object whose stored context is bound to \<open>I\<close> answers every request whose path
  asserts a valid identity \<open>J \<noteq> I\<close> with status 403, and the object after the request is
  the object before it: the stored context (identity, \<open>createdAt\<close>, \<open>lastAccessed\<close>),
  the in-memory context and the transport are unchanged.
\<close>

theorem mismatch_rejected_context_unchanged:
  assumes "isValidUserId J" and "storage this = Some ctx" and "userId ctx = I" and "I \<noteq> J"
    and "pathname req = ''/'' @ J \<or> (\<exists>rest. pathname req = ''/'' @ J @ ''/'' @ rest)"
  shows "(\<exists>b. fst (fetch dec clock this req) = Response 403 b) \<and>
         snd (fetch dec clock this req) = this"
proof -
  from assms(3,4) have "userId ctx \<noteq> J" by simp
  with assms(1,2) show ?thesis
    using assms(5) by (simp add: fetch_mismatch)
qed

theorem mismatch_rejected_context_unchanged_witness:
  "(\<exists>b. fst (fetch id Suc
       \<lparr>actor_id = ''do'',
        storage = Some \<lparr>userId = ''aaaaaaaaaa'', createdAt = 1, lastAccessed = 2\<rparr>,
        userContext = None, transport = None\<rparr>
       \<lparr>req_method = POST, pathname = ''/bbbbbbbbbb/messages'', payload = ''m''\<rparr>) = Response 403 b) \<and>
   storage (snd (fetch id Suc
       \<lparr>actor_id = ''do'',
        storage = Some \<lparr>userId = ''aaaaaaaaaa'', createdAt = 1, lastAccessed = 2\<rparr>,
        userContext = None, transport = None\<rparr>
       \<lparr>req_method = POST, pathname = ''/bbbbbbbbbb/messages'', payload = ''m''\<rparr>))
     = Some \<lparr>userId = ''aaaaaaaaaa'', createdAt = 1, lastAccessed = 2\<rparr>"
  using mismatch_rejected_context_unchanged [OF valid_b10, of
      "\<lparr>actor_id = ''do'',
        storage = Some \<lparr>userId = ''aaaaaaaaaa'', createdAt = 1, lastAccessed = 2\<rparr>,
        userContext = None, transport = None\<rparr>"
      "\<lparr>userId = ''aaaaaaaaaa'', createdAt = 1, lastAccessed = 2\<rparr>"
      "''aaaaaaaaaa''"
      "\<lparr>req_method = POST, pathname = ''/bbbbbbbbbb/messages'', payload = ''m''\<rparr>"
      id Suc]
  by simp

text \<open>
  C3. The specification asks that the 403 answer to a mismatching request not disclose the bound
  identity. An object bound to \<open>aaaaaaaaaa\<close> answers a request asserting
  \<open>bbbbbbbbbb\<close> with a body that spells out \<open>aaaaaaaaaa\<close>: the message of the thrown
  error is copied into the response. The inner middleware's 403 keeps both identities in
  the log and answers with a fixed text.
\<close>

theorem mismatch_body_discloses_bound_identity:
  "fst (fetch id Suc
       \<lparr>actor_id = ''do'',
        storage = Some \<lparr>userId = ''aaaaaaaaaa'', createdAt = 1, lastAccessed = 2\<rparr>,
        userContext = None, transport = None\<rparr>
       \<lparr>req_method = GET, pathname = ''/bbbbbbbbbb/sse'', payload = ()\<rparr>)
     = Response 403 (Text ''Security validation failed: Security violation: User context mismatch. Expected aaaaaaaaaa, got bbbbbbbbbb'') \<and>
   includes_sub ''Security validation failed: Security violation: User context mismatch. Expected aaaaaaaaaa, got bbbbbbbbbb'' ''aaaaaaaaaa''"
proof -
  have "fst (fetch id Suc
       \<lparr>actor_id = ''do'',
        storage = Some \<lparr>userId = ''aaaaaaaaaa'', createdAt = 1, lastAccessed = 2\<rparr>,
        userContext = None, transport = None\<rparr>
       \<lparr>req_method = GET, pathname = ''/bbbbbbbbbb/sse'', payload = ()\<rparr>)
     = Response 403 (Text ''Security validation failed: Security violation: User context mismatch. Expected aaaaaaaaaa, got bbbbbbbbbb'')"
    using valid_b10
    by (simp add: fetch_def at_index_def split_def validateAndSetUserContext_def)
  moreover have "includes_sub ''Security validation failed: Security violation: User context mismatch. Expected aaaaaaaaaa, got bbbbbbbbbb'' ''aaaaaaaaaa''"
    by simp
  ultimately show ?thesis by (rule conjI)
qed

section \<open>The durable object: the inner middleware\<close>

lemma param_userId_of_request:
  assumes "pathname req = CHR ''/'' # p"
    and "at_index (split (pathname req) CHR ''/'') 1 = Some u"
    and "isValidUserId u"
  shows "param_userId dec (pathname req) = Some u"
proof -
  obtain seg rest where sp: "split p CHR ''/'' = seg # rest"
    using split_acc_not_Nil [of "CHR ''/''" "[]" p]
    by (cases "split p CHR ''/''") (auto simp: split_def)
  with assms(1,2) have "seg = u"
    by (simp add: split_leading at_index_def)
  with sp assms(1) valid_userId_plain(2,3) [OF assms(3)] show ?thesis
    by (simp add: param_userId_def split_leading)
qed

lemma middleware_next:
  assumes "isValidUserId u" and "map_option userId (userContext this) = Some u"
  shows "userId_middleware this u = Mw_next u"
  using assms valid_userId_plain(3) [OF assms(1)]
  by (auto simp: userId_middleware_def)

lemma middleware_not_403:
  assumes "map_option userId (userContext this) = Some u"
    and "param_userId dec p = Some v"
    and "at_index (split p CHR ''/'') 1 = Some u" and "isValidUserId u"
  shows "userId_middleware this v
          \<noteq> Mw_respond (Response 403 (Json_error ''User context validation failed''))"
proof -
  obtain rest where sp: "split p CHR ''/'' = [] # u # rest"
    using assms(2,3) by (auto simp: param_userId_def at_index_def split: list.splits if_splits)
  with assms(2) valid_userId_plain(2,3) [OF assms(4)] have "v = u"
    by (simp add: param_userId_def)
  with assms(1,4) show ?thesis
    by (simp add: middleware_next)
qed

lemma dispatch_status:
  "fst (dispatch this uid req) \<noteq> Response 403 b"
  by (auto simp: dispatch_def sse_route_def messages_route_def
      split: list.splits option.splits sum.splits)

lemma strip_body_status: "strip_body r \<noteq> Response 403 (Json_error m)"
  by (cases r) (simp add: strip_body_def)

lemma server_fetch_not_403:
  assumes "map_option userId (userContext this) = Some u"
    and "at_index (split (pathname req) CHR ''/'') 1 = Some u" and "isValidUserId u"
  shows "fst (server_fetch dec this req)
          \<noteq> Response 403 (Json_error ''User context validation failed'')"
proof (cases "param_userId dec (pathname req)")
  case None
  then show ?thesis by (simp add: server_fetch_def)
next
  case (Some v)
  have mw: "userId_middleware this v
             \<noteq> Mw_respond (Response 403 (Json_error ''User context validation failed''))"
    using assms(1) Some assms(2,3) by (rule middleware_not_403)
  show ?thesis
  proof (cases "userId_middleware this v")
    case (Mw_respond r)
    with mw Some show ?thesis by (simp add: server_fetch_def)
  next
    case (Mw_next w)
    with Some show ?thesis
      using dispatch_status [of this w req] strip_body_status
      by (auto simp: server_fetch_def split: prod.splits)
  qed
qed

text \<open>No request that enters through \<open>fetch\<close> is answered by the middleware's 403.\<close>

lemma fetch_never_middleware_403:
  "fst (fetch dec clock this req)
     \<noteq> Response 403 (Json_error ''User context validation failed'')"
proof (cases "at_index (split (pathname req) CHR ''/'') 1")
  case None
  then show ?thesis by (simp add: fetch_def)
next
  case (Some u)
  show ?thesis
  proof (cases "u = [] \<or> \<not> isValidUserId u")
    case True
    with Some show ?thesis by (auto simp: fetch_def)
  next
    case False
    then have v: "isValidUserId u" and ne: "u \<noteq> []" by simp_all
    show ?thesis
    proof (cases "validateAndSetUserContext clock this u")
      case (Inl e)
      with Some v ne show ?thesis by (simp add: fetch_def)
    next
      case (Inr this')
      have "map_option userId (userContext (getOrCreateTransport this' u)) = Some u"
        using validate_binds(1) [OF Inr] by (simp add: getOrCreateTransport_userContext)
      then have "fst (server_fetch dec (getOrCreateTransport this' u) req)
          \<noteq> Response 403 (Json_error ''User context validation failed'')"
        using Some v by (rule server_fetch_not_403)
      with Some v ne Inr show ?thesis by (simp add: fetch_def)
    qed
  qed
qed

text \<open>
  C10. Take a request whose pathname starts with a slash, as every URL pathname does,
  whose first segment \<open>u\<close> passes the outer validation and on which
  \<open>validateAndSetUserContext\<close> succeeds. The middleware reads the same segment as its
  \<open>userId\<close> parameter, its comparison with the in-memory context passes and it calls
  \<open>next()\<close>; the response of \<open>fetch\<close> is never the middleware's 403.
\<close>

theorem middleware_identity_check_passes:
  assumes "pathname req = CHR ''/'' # p"
    and "at_index (split (pathname req) CHR ''/'') 1 = Some u"
    and "isValidUserId u"
    and "validateAndSetUserContext clock this u = Inr this'"
  shows "param_userId dec (pathname req) = Some u \<and>
         userId_middleware (getOrCreateTransport this' u) u = Mw_next u \<and>
         fst (fetch dec clock this req)
           \<noteq> Response 403 (Json_error ''User context validation failed'')"
proof -
  have "map_option userId (userContext (getOrCreateTransport this' u)) = Some u"
    using validate_binds(1) [OF assms(4)] by (simp add: getOrCreateTransport_userContext)
  with assms(3) have "userId_middleware (getOrCreateTransport this' u) u = Mw_next u"
    by (rule middleware_next)
  moreover have "param_userId dec (pathname req) = Some u"
    using assms(1-3) by (rule param_userId_of_request)
  ultimately show ?thesis
    using fetch_never_middleware_403 by simp
qed

theorem middleware_identity_check_passes_witness:
  "param_userId id ''/abcdefghij/messages'' = Some ''abcdefghij'' \<and>
   userId_middleware
     (getOrCreateTransport
        \<lparr>actor_id = ''do'',
         storage = Some \<lparr>userId = ''abcdefghij'', createdAt = 1, lastAccessed = 2\<rparr>,
         userContext = Some \<lparr>userId = ''abcdefghij'', createdAt = 1, lastAccessed = 2\<rparr>,
         transport = None :: string sse_transport option\<rparr> ''abcdefghij'')
     ''abcdefghij'' = Mw_next ''abcdefghij'' \<and>
   fst (fetch id Suc
          \<lparr>actor_id = ''do'', storage = None, userContext = None, transport = None\<rparr>
          \<lparr>req_method = POST, pathname = ''/abcdefghij/messages'', payload = ''m''\<rparr>)
     \<noteq> Response 403 (Json_error ''User context validation failed'')"
  using middleware_identity_check_passes [of
      "\<lparr>req_method = POST, pathname = ''/abcdefghij/messages'', payload = ''m''\<rparr>"
      "''abcdefghij/messages''" "''abcdefghij''" Suc
      "\<lparr>actor_id = ''do'', storage = None, userContext = None, transport = None\<rparr>"
      "\<lparr>actor_id = ''do'',
         storage = Some \<lparr>userId = ''abcdefghij'', createdAt = 1, lastAccessed = 2\<rparr>,
         userContext = Some \<lparr>userId = ''abcdefghij'', createdAt = 1, lastAccessed = 2\<rparr>,
         transport = None\<rparr>" id]
    valid_j10
  by (simp add: at_index_def split_def validateAndSetUserContext_def Let_def numeral_2_eq_2)

section \<open>The durable object: posting before a stream is open\<close>

lemma messages_route_unconnected:
  assumes "transport this = Some t" and "\<not> connected t"
  shows "messages_route this m = (Response 500 (Text (message_of transport_not_ready)), this)"
  using assms by (simp add: messages_route_def handlePostMessage_def)

lemma messages_route_connected:
  assumes "transport this = Some t" and "connected t"
  shows "messages_route this m =
     (Response 200 (Text ''ok''), this\<lparr>transport := Some (t\<lparr>inbox := inbox t @ [m]\<rparr>)\<rparr>)"
  using assms by (simp add: messages_route_def handlePostMessage_def)

lemma server_fetch_post_messages:
  assumes "isValidUserId I" and "pathname req = ''/'' @ I @ ''/messages''"
    and "req_method req = POST"
    and "map_option userId (userContext this) = Some I"
    and "transport this = Some t" and "\<not> connected t"
  shows "server_fetch dec this req = (Response 500 (Text (message_of transport_not_ready)), this)"
proof -
  have sp: "split (pathname req) CHR ''/'' = [[], I, ''messages'']"
    using assms(1,2) by (rule split_messages_path)
  then have "param_userId dec (pathname req) = Some I"
    using valid_userId_plain(2,3) [OF assms(1)] by (simp add: param_userId_def)
  moreover have "userId_middleware this I = Mw_next I"
    using assms(1,4) by (rule middleware_next)
  moreover have "dispatch this I req = (Response 500 (Text (message_of transport_not_ready)), this)"
    using sp assms(3) messages_route_unconnected [OF assms(5,6)] by (simp add: dispatch_def)
  ultimately show ?thesis
    using assms(3) by (simp add: server_fetch_def)
qed

text \<open>
  Inside \<open>fetch\<close> the server always runs on an object that has a transport, so the
  handler's own \<open>Transport not initialized\<close> error is never thrown there.
\<close>

lemma getOrCreateTransport_initialized:
  "transport (getOrCreateTransport this u) \<noteq> None"
  by (simp add: getOrCreateTransport_def split: option.splits)

text \<open>
  C6. On an object on which no stream has been attached (it has no transport yet, or a
  transport that is not connected), whose stored context is absent or bound to the valid
  identity \<open>I\<close>, a \<open>POST\<close> to \<open>/I/messages\<close> is answered with status 500 and the
  message of the transport's TransportNotReady failure; the object afterwards has a
  transport that is still not connected and holds no message it did not hold before.
\<close>

theorem post_without_stream_transport_not_ready:
  assumes "isValidUserId I" and "pathname req = ''/'' @ I @ ''/messages''"
    and "req_method req = POST"
    and "storage this = None \<or> (\<exists>ctx. storage this = Some ctx \<and> userId ctx = I)"
    and "transport this = None \<or> (\<exists>t. transport this = Some t \<and> \<not> connected t)"
  shows "fst (fetch dec clock this req) = Response 500 (Text (message_of transport_not_ready)) \<and>
         (\<exists>t. transport (snd (fetch dec clock this req)) = Some t \<and> \<not> connected t \<and>
               inbox t = (case transport this of None \<Rightarrow> [] | Some t0 \<Rightarrow> inbox t0))"
proof -
  obtain this' where v: "validateAndSetUserContext clock this I = Inr this'"
    and uc: "map_option userId (userContext this') = Some I"
    and tr: "transport this' = transport this"
    using validate_ok [OF assms(4)] by blast
  let ?a = "getOrCreateTransport this' I"
  have uc': "map_option userId (userContext ?a) = Some I"
    using uc by (simp add: getOrCreateTransport_userContext)
  obtain t where t: "transport ?a = Some t" "\<not> connected t"
    "inbox t = (case transport this of None \<Rightarrow> [] | Some t0 \<Rightarrow> inbox t0)"
    using assms(5) tr by (auto simp: getOrCreateTransport_def)
  have "server_fetch dec ?a req = (Response 500 (Text (message_of transport_not_ready)), ?a)"
    using assms(1-3) uc' t(1,2) by (rule server_fetch_post_messages)
  moreover have "at_index (split (pathname req) CHR ''/'') 1 = Some I"
    using split_messages_path [OF assms(1,2)] by (simp add: at_index_def)
  ultimately have "fetch dec clock this req =
      (Response 500 (Text (message_of transport_not_ready)), ?a)"
    using v assms(1) valid_userId_plain(3) [OF assms(1)] by (simp add: fetch_def)
  with t show ?thesis by simp
qed

theorem post_without_stream_transport_not_ready_witness:
  "fst (fetch id Suc
          \<lparr>actor_id = ''do'', storage = None, userContext = None, transport = None\<rparr>
          \<lparr>req_method = POST, pathname = ''/abcdefghij/messages'', payload = ''m''\<rparr>)
     = Response 500 (Text ''TransportNotReady'') \<and>
   (\<exists>t. transport (snd (fetch id Suc
          \<lparr>actor_id = ''do'', storage = None, userContext = None, transport = None\<rparr>
          \<lparr>req_method = POST, pathname = ''/abcdefghij/messages'', payload = ''m''\<rparr>)) = Some t \<and>
        \<not> connected t \<and> inbox t = [])"
  using post_without_stream_transport_not_ready [OF valid_j10, of
      "\<lparr>req_method = POST, pathname = ''/abcdefghij/messages'', payload = ''m''\<rparr>"
      "\<lparr>actor_id = ''do'', storage = None, userContext = None, transport = None\<rparr>"
      id Suc]
  by (simp add: transport_not_ready_def)

section \<open>The tool handlers of a session\<close>

text \<open>
  The \<open>userId\<close> that the middleware sets for the routes, and that the stream-open route
  passes to \<open>createSuperMemory\<close>, is the identity of the context that
  \<open>validateAndSetUserContext\<close> has just persisted.
\<close>

lemma middleware_passes_bound_identity:
  assumes "validateAndSetUserContext clock this r = Inr bound"
    and "storage bound = Some ctx"
    and "userId_middleware (getOrCreateTransport bound r) v = Mw_next u"
  shows "u = userId ctx"
proof -
  have "map_option userId (storage bound) = Some r"
    using assms(1) by (rule validate_binds(2))
  with assms(2) have r: "userId ctx = r" by simp
  have "map_option userId (userContext (getOrCreateTransport bound r)) = Some r"
    using validate_binds(1) [OF assms(1)] by (simp add: getOrCreateTransport_userContext)
  with assms(3) have "u = r"
    by (auto simp: userId_middleware_def split: if_splits)
  with r show ?thesis by simp
qed

lemma middleware_next_valid:
  "userId_middleware this v = Mw_next u \<Longrightarrow> isValidUserId u"
  by (auto simp: userId_middleware_def split: if_splits)

text \<open>
  A stream-open request that the object accepts is handled by the stream-open route with
  the identity of the request.
\<close>

lemma fetch_stream_open:
  assumes "isValidUserId I" and "pathname req = ''/'' @ I @ ''/sse''"
    and "req_method req = GET"
    and "validateAndSetUserContext clock this I = Inr bound"
  shows "fetch dec clock this req = sse_route (getOrCreateTransport bound I) I"
proof -
  have "pathname req = ''/'' @ I @ ''/'' @ ''sse''"
    using assms(2) by simp
  moreover have "CHR ''/'' \<notin> set ''sse''" by simp
  ultimately have sp: "split (pathname req) CHR ''/'' = [[], I, ''sse'']"
    by (rule split_session_path [OF assms(1)])
  then have "param_userId dec (pathname req) = Some I"
    using valid_userId_plain(2,3) [OF assms(1)] by (simp add: param_userId_def)
  moreover have "userId_middleware (getOrCreateTransport bound I) I = Mw_next I"
    using assms(1) validate_binds(1) [OF assms(4)]
    by (simp add: middleware_next getOrCreateTransport_userContext)
  moreover have "dispatch (getOrCreateTransport bound I) I req
      = sse_route (getOrCreateTransport bound I) I"
    using sp assms(3) by (simp add: dispatch_def)
  ultimately have "server_fetch dec (getOrCreateTransport bound I) req
      = sse_route (getOrCreateTransport bound I) I"
    using assms(3) by (simp add: server_fetch_def)
  moreover have "at_index (split (pathname req) CHR ''/'') 1 = Some I"
    using sp by (simp add: at_index_def)
  ultimately show ?thesis
    using assms(1,4) valid_userId_plain(3) [OF assms(1)] by (simp add: fetch_def)
qed

text \<open>
  C9. Take an object on which \<open>validateAndSetUserContext\<close> has succeeded, the context
  \<open>ctx\<close> it persisted, and the \<open>userId\<close> \<open>u\<close> that the middleware then hands to the
  routes. It is the bound identity. The \<open>/add\<close> handler created for \<open>u\<close> hands the
  store a listing and then at most one addition, the \<open>/search\<close> handler one search, each
  with the singleton of the bound identity as \<open>containerTags\<close>. The runs of both handlers
  are the same against any two stores that answer alike on that scope: nothing a store
  holds under another scope, or under none, reaches them.
\<close>

theorem tool_calls_scoped_to_bound_identity:
  assumes "validateAndSetUserContext clock this r = Inr bound"
    and "storage bound = Some ctx"
    and "userId_middleware (getOrCreateTransport bound r) v = Mw_next u"
  shows "u = userId ctx \<and>
    (fst (add_handler client u thing) = [Memories_list [userId ctx]] \<or>
     fst (add_handler client u thing)
       = [Memories_list [userId ctx], Memories_add thing [userId ctx]]) \<and>
    fst (search_handler client u q) = [Search_execute q [userId ctx]] \<and>
    (memories_list c1 [userId ctx] = memories_list c2 [userId ctx] \<longrightarrow>
     memories_add c1 thing [userId ctx] = memories_add c2 thing [userId ctx] \<longrightarrow>
       add_handler c1 u thing = add_handler c2 u thing) \<and>
    (search_execute c1 q [userId ctx] = search_execute c2 q [userId ctx] \<longrightarrow>
       search_handler c1 u q = search_handler c2 u q)"
proof -
  have u: "u = userId ctx"
    using assms by (rule middleware_passes_bound_identity)
  have valid: "isValidUserId u"
    using assms(3) by (rule middleware_next_valid)
  have "fst (add_handler client u thing) = [Memories_list [u]] \<or>
      fst (add_handler client u thing) = [Memories_list [u], Memories_add thing [u]]"
    using valid by (rule add_handler_calls)
  moreover have "fst (search_handler client u q) = [Search_execute q [u]]"
    using valid by (rule search_handler_calls)
  moreover have "memories_list c1 [u] = memories_list c2 [u] \<longrightarrow>
      memories_add c1 thing [u] = memories_add c2 thing [u] \<longrightarrow>
      add_handler c1 u thing = add_handler c2 u thing"
    using add_handler_own_scope [of c1 u c2 thing] by blast
  moreover have "search_execute c1 q [u] = search_execute c2 q [u] \<longrightarrow>
      search_handler c1 u q = search_handler c2 u q"
    using search_handler_own_scope [of c1 q u c2] by blast
  ultimately show ?thesis
    unfolding u by blast
qed

theorem tool_calls_scoped_to_bound_identity_witness:
  "fst (add_handler
      \<lparr>memories_list = (\<lambda>tags. Inr [()]),
       memories_add = (\<lambda>content tags. Inr ()),
       search_execute = (\<lambda>q tags. Inr [[''dark mode'']])\<rparr> ''abcdefghij'' ''x'')
     = [Memories_list [''abcdefghij''], Memories_add ''x'' [''abcdefghij'']] \<and>
   fst (search_handler
      \<lparr>memories_list = (\<lambda>tags. Inr [()]),
       memories_add = (\<lambda>content tags. Inr ()),
       search_execute = (\<lambda>q tags. Inr [[''dark mode'']])\<rparr> ''abcdefghij'' ''y'')
     = [Search_execute ''y'' [''abcdefghij'']] \<and>
   add_handler
      \<lparr>memories_list = (\<lambda>tags. Inr [()]),
       memories_add = (\<lambda>content tags. Inr ()),
       search_execute = (\<lambda>q tags. Inr [[''dark mode'']])\<rparr> ''abcdefghij'' ''x''
     = add_handler
      \<lparr>memories_list =
         (\<lambda>tags. if tags = [''abcdefghij''] then Inr [()] else Inr (replicate 3000 ())),
       memories_add =
         (\<lambda>content tags. if tags = [''abcdefghij''] then Inr () else Inl (Error ''other scope'')),
       search_execute =
         (\<lambda>q tags. if tags = [''abcdefghij''] then Inr [[''dark mode'']] else Inr [[''secret'']])\<rparr>
      ''abcdefghij'' ''x'' \<and>
   search_handler
      \<lparr>memories_list = (\<lambda>tags. Inr [()]),
       memories_add = (\<lambda>content tags. Inr ()),
       search_execute = (\<lambda>q tags. Inr [[''dark mode'']])\<rparr> ''abcdefghij'' ''y''
     = search_handler
      \<lparr>memories_list =
         (\<lambda>tags. if tags = [''abcdefghij''] then Inr [()] else Inr (replicate 3000 ())),
       memories_add =
         (\<lambda>content tags. if tags = [''abcdefghij''] then Inr () else Inl (Error ''other scope'')),
       search_execute =
         (\<lambda>q tags. if tags = [''abcdefghij''] then Inr [[''dark mode'']] else Inr [[''secret'']])\<rparr>
      ''abcdefghij'' ''y''"
  using tool_calls_scoped_to_bound_identity [where
      clock = Suc
      and this = "\<lparr>actor_id = ''do'', storage = None, userContext = None,
                   transport = None :: string sse_transport option\<rparr>"
      and r = "''abcdefghij''"
      and bound = "\<lparr>actor_id = ''do'',
         storage = Some \<lparr>userId = ''abcdefghij'', createdAt = 1, lastAccessed = 2\<rparr>,
         userContext = Some \<lparr>userId = ''abcdefghij'', createdAt = 1, lastAccessed = 2\<rparr>,
         transport = None\<rparr>"
      and ctx = "\<lparr>userId = ''abcdefghij'', createdAt = 1, lastAccessed = 2\<rparr>"
      and v = "''abcdefghij''" and u = "''abcdefghij''"
      and client = "\<lparr>memories_list = (\<lambda>tags. Inr [()]),
       memories_add = (\<lambda>content tags. Inr ()),
       search_execute = (\<lambda>q tags. Inr [[''dark mode'']])\<rparr>"
      and thing = "''x''" and q = "''y''"
      and ?c1.0 = "\<lparr>memories_list = (\<lambda>tags. Inr [()]),
       memories_add = (\<lambda>content tags. Inr ()),
       search_execute = (\<lambda>q tags. Inr [[''dark mode'']])\<rparr>"
      and ?c2.0 = "\<lparr>memories_list =
         (\<lambda>tags. if tags = [''abcdefghij''] then Inr [()] else Inr (replicate 3000 ())),
       memories_add =
         (\<lambda>content tags. if tags = [''abcdefghij''] then Inr () else Inl (Error ''other scope'')),
       search_execute =
         (\<lambda>q tags. if tags = [''abcdefghij''] then Inr [[''dark mode'']] else Inr [[''secret'']])\<rparr>"]
    valid_j10
  by (simp add: validateAndSetUserContext_def Let_def numeral_2_eq_2 userId_middleware_def
      getOrCreateTransport_def add_handler_def add_body_def search_handler_def search_body_def)

end
